theory Spec2Isabelle
  imports Complex_Main "HOL-Library.Product_Lexorder" "HOL-Library.AList" "HOL-Library.Multiset"
begin

section \<open>Numeric values\<close>

text \<open>
  The arrays of the program hold IEEE doubles. A value is modelled as a finite real, one of
  the two infinities, or NaN. Arithmetic on finite values is exact (no rounding, no
  overflow, no signed zero); the special values follow IEEE: NaN is absorbing, a non-zero
  value divided by zero is an infinity, \<open>0/0\<close> and \<open>inf - inf\<close> are NaN, and every
  comparison with NaN is false.
\<close>

datatype fl = Fin real | PInf | MInf | NaN

fun fneg :: "fl \<Rightarrow> fl" where
  "fneg (Fin a) = Fin (- a)"
| "fneg PInf = MInf"
| "fneg MInf = PInf"
| "fneg NaN = NaN"

fun fadd :: "fl \<Rightarrow> fl \<Rightarrow> fl" where
  "fadd NaN _ = NaN"
| "fadd _ NaN = NaN"
| "fadd (Fin a) (Fin b) = Fin (a + b)"
| "fadd PInf MInf = NaN"
| "fadd MInf PInf = NaN"
| "fadd PInf _ = PInf"
| "fadd _ PInf = PInf"
| "fadd MInf _ = MInf"
| "fadd _ MInf = MInf"

definition fsub :: "fl \<Rightarrow> fl \<Rightarrow> fl" where
  "fsub a b = fadd a (fneg b)"

fun fabs :: "fl \<Rightarrow> fl" where
  "fabs (Fin a) = Fin \<bar>a\<bar>"
| "fabs PInf = PInf"
| "fabs MInf = PInf"
| "fabs NaN = NaN"

text \<open>The sign of a value: \<open>1\<close>, \<open>-1\<close> or \<open>0\<close> (NaN has none and is handled before).\<close>

fun fsgn :: "fl \<Rightarrow> int" where
  "fsgn (Fin a) = (if 0 < a then 1 else if a < 0 then - 1 else 0)"
| "fsgn PInf = 1"
| "fsgn MInf = - 1"
| "fsgn NaN = 0"

definition inf_of_sign :: "int \<Rightarrow> fl" where
  "inf_of_sign s = (if 0 < s then PInf else if s < 0 then MInf else NaN)"

fun fmul :: "fl \<Rightarrow> fl \<Rightarrow> fl" where
  "fmul NaN _ = NaN"
| "fmul _ NaN = NaN"
| "fmul (Fin a) (Fin b) = Fin (a * b)"
| "fmul a b = inf_of_sign (fsgn a * fsgn b)"

fun fdiv :: "fl \<Rightarrow> fl \<Rightarrow> fl" where
  "fdiv NaN _ = NaN"
| "fdiv _ NaN = NaN"
| "fdiv (Fin a) (Fin b) = (if b = 0 then inf_of_sign (fsgn (Fin a)) else Fin (a / b))"
| "fdiv (Fin a) _ = Fin 0"
| "fdiv a (Fin b) = inf_of_sign (fsgn a * (if b < 0 then - 1 else 1))"
| "fdiv _ _ = NaN"

text \<open>IEEE comparisons \<open>>=\<close> and \<open>>\<close>.\<close>

fun fge :: "fl \<Rightarrow> fl \<Rightarrow> bool" where
  "fge NaN _ = False"
| "fge _ NaN = False"
| "fge (Fin a) (Fin b) = (b \<le> a)"
| "fge PInf _ = True"
| "fge _ MInf = True"
| "fge _ _ = False"

fun fgt :: "fl \<Rightarrow> fl \<Rightarrow> bool" where
  "fgt NaN _ = False"
| "fgt _ NaN = False"
| "fgt (Fin a) (Fin b) = (b < a)"
| "fgt PInf PInf = False"
| "fgt MInf MInf = False"
| "fgt PInf _ = True"
| "fgt _ MInf = True"
| "fgt _ _ = False"

text \<open>The binary steps of numpy's \<open>minimum\<close> and \<open>maximum\<close> reductions: NaN propagates.\<close>

definition fmin :: "fl \<Rightarrow> fl \<Rightarrow> fl" where
  "fmin a b = (if a = NaN \<or> b = NaN then NaN else if fge b a then a else b)"

definition fmax :: "fl \<Rightarrow> fl \<Rightarrow> fl" where
  "fmax a b = (if a = NaN \<or> b = NaN then NaN else if fge a b then a else b)"

text \<open>Reductions of a row: \<open>np.sum\<close>, and \<open>np.amin\<close>/\<open>np.amax\<close> on a non-empty row.\<close>

definition fsum :: "fl list \<Rightarrow> fl" where
  "fsum xs = foldr fadd xs (Fin 0)"

fun amin_row :: "fl list \<Rightarrow> fl" where
  "amin_row [] = NaN"
| "amin_row (x # xs) = foldl fmin x xs"

fun amax_row :: "fl list \<Rightarrow> fl" where
  "amax_row [] = NaN"
| "amax_row (x # xs) = foldl fmax x xs"

section \<open>Arrays and errors\<close>

text \<open>
  A numpy array of doubles with one or two dimensions. \<open>Arr2 n rows\<close> has shape
  \<open>(length rows, n)\<close>; the column count is kept because a matrix with no rows still has
  one. Arrays of other dimensions are not modelled.
\<close>

datatype ndarray = Arr1 "fl list" | Arr2 nat "fl list list"

fun wf_arr :: "ndarray \<Rightarrow> bool" where
  "wf_arr (Arr1 xs) = True"
| "wf_arr (Arr2 n rows) = list_all (\<lambda>r. length r = n) rows"

datatype error = ValueError | IndexError | AxisError | AssertionError | KeyError | TypeError

definition ebind :: "error + 'a \<Rightarrow> ('a \<Rightarrow> error + 'b) \<Rightarrow> error + 'b" where
  "ebind m k = (case m of Inl e \<Rightarrow> Inl e | Inr x \<Rightarrow> k x)"

text \<open>Unary minus of an array, and of the result of a call that may have raised.\<close>

fun neg_arr :: "ndarray \<Rightarrow> ndarray" where
  "neg_arr (Arr1 xs) = Arr1 (map fneg xs)"
| "neg_arr (Arr2 n rows) = Arr2 n (map (map fneg) rows)"

definition neg_res :: "error + ndarray \<Rightarrow> error + ndarray" where
  "neg_res r = ebind r (\<lambda>a. Inr (neg_arr a))"

text \<open>Elementwise \<open>a + b\<close> of two arrays of the same shape (other shapes: not modelled here,
  reported as the broadcasting error).\<close>

fun add_arr :: "ndarray \<Rightarrow> ndarray \<Rightarrow> error + ndarray" where
  "add_arr (Arr1 xs) (Arr1 ys) =
     (if length xs = length ys then Inr (Arr1 (map2 fadd xs ys)) else Inl ValueError)"
| "add_arr (Arr2 n xs) (Arr2 k ys) =
     (if n = k \<and> length xs = length ys then Inr (Arr2 n (map2 (map2 fadd) xs ys))
      else Inl ValueError)"
| "add_arr _ _ = Inl ValueError"

definition add_res :: "error + ndarray \<Rightarrow> error + ndarray \<Rightarrow> error + ndarray" where
  "add_res a b = ebind a (\<lambda>x. ebind b (\<lambda>y. add_arr x y))"

text \<open>
  The Python values that occur as keyword arguments and results: Booleans, numbers, arrays,
  and references to dictionary objects. A dictionary is an association list in insertion
  order, \<open>AList.update\<close> is the assignment \<open>d[k] = v\<close>. Dictionaries are mutable and may
  be shared, so they live in a heap: the list of all dictionary objects, a reference being
  an index into it.
\<close>

datatype pyval = PBool bool | PNum fl | PArr ndarray | PRef nat

type_synonym dict = "(string \<times> pyval) list"

type_synonym heap = "dict list"

text \<open>The column \<open>j\<close> of the rows of a matrix, for an index below the column count.\<close>

definition column :: "fl list list \<Rightarrow> nat \<Rightarrow> fl list" where
  "column rows j = map (\<lambda>r. r ! j) rows"

section \<open>Stage 1: value transforms (t1.py)\<close>

fun prepare_f :: "ndarray \<Rightarrow> ndarray" where
  "prepare_f (Arr2 n rows) = Arr2 n rows"
| "prepare_f (Arr1 xs) = Arr2 (length xs) [xs]"

definition identity :: "ndarray \<Rightarrow> bool \<Rightarrow> ndarray" where
  "identity f maximise = (let f' = prepare_f f in if maximise then f' else neg_arr f')"

text \<open>
  \<open>np.amax(f, axis=0)\<close> is the maximum of every column and raises on a matrix with no
  rows; \<open>f - best\<close> subtracts it from every row. (\<open>identity\<close> always hands over a matrix;
  on a vector the maximum is one number, taken from every entry.)
\<close>

definition regret_from_best_da :: "ndarray \<Rightarrow> bool \<Rightarrow> error + ndarray" where
  "regret_from_best_da f maximise =
     (let f1 = prepare_f f;
          f2 = identity f1 maximise
      in case f2 of
           Arr2 n rows \<Rightarrow>
             if rows = [] then Inl ValueError
             else
               let best_decision_alternatives = map (\<lambda>j. amax_row (column rows j)) [0..<n];
                   regret = map (\<lambda>r. map2 fsub r best_decision_alternatives) rows
               in Inr (Arr2 n regret)
         | Arr1 xs \<Rightarrow>
             if xs = [] then Inl ValueError
             else Inr (Arr1 (map (\<lambda>x. fsub x (amax_row xs)) xs)))"

text \<open>\<open>satisfice\<close> with a scalar threshold, as its docstring types it.\<close>

definition satisfice :: "ndarray \<Rightarrow> bool \<Rightarrow> fl \<Rightarrow> bool \<Rightarrow> ndarray" where
  "satisfice f maximise threshold accept_equal =
     (let f1 = prepare_f f;
          f2 = identity f1 maximise;
          c = (if maximise then threshold else fneg threshold);
          test = (\<lambda>x. if accept_equal then fge x c else fgt x c)
      in case f2 of
           Arr2 n rows \<Rightarrow> Arr2 n (map (map (\<lambda>x. if test x then Fin 1 else Fin 0)) rows)
         | Arr1 xs \<Rightarrow> Arr1 (map (\<lambda>x. if test x then Fin 1 else Fin 0) xs))"







section \<open>Stage 2: scenario selection (t2.py)\<close>

definition all_scenarios :: "ndarray \<Rightarrow> ndarray" where
  "all_scenarios f = f"

text \<open>\<open>np.amin(f, 1, keepdims=True)\<close>: a one-dimensional array has no axis 1, and a
  reduction without identity over an axis of size 0 raises.\<close>

fun worst_case :: "ndarray \<Rightarrow> error + ndarray" where
  "worst_case (Arr1 xs) = Inl AxisError"
| "worst_case (Arr2 n rows) =
     (if n = 0 then Inl ValueError else Inr (Arr2 1 (map (\<lambda>r. [amin_row r]) rows)))"

fun best_case :: "ndarray \<Rightarrow> error + ndarray" where
  "best_case (Arr1 xs) = Inl AxisError"
| "best_case (Arr2 n rows) =
     (if n = 0 then Inl ValueError else Inr (Arr2 1 (map (\<lambda>r. [amax_row r]) rows)))"

text \<open>
  \<open>np.sort\<close> along the last axis: ascending, with NaN placed after every number. The key
  orders the values as numpy does.
\<close>

fun fl_key :: "fl \<Rightarrow> nat \<times> real" where
  "fl_key MInf = (0, 0)"
| "fl_key (Fin a) = (1, a)"
| "fl_key PInf = (2, 0)"
| "fl_key NaN = (3, 0)"

definition np_sort :: "fl list \<Rightarrow> fl list" where
  "np_sort r = sort_key fl_key r"

text \<open>The count \<open>int(n / 2. + 0.51)\<close> of \<open>worst_half\<close>; \<open>int\<close> truncates, and the
  argument is positive.\<close>

definition half_count :: "nat \<Rightarrow> nat" where
  "half_count n = nat \<lfloor>real n / 2 + 51 / 100\<rfloor>"

fun worst_half :: "ndarray \<Rightarrow> error + ndarray" where
  "worst_half (Arr1 xs) = Inl IndexError"
| "worst_half (Arr2 k rows) =
     (let sorted_f = map np_sort rows;
          n = k;
          n' = half_count n
      in Inr (Arr2 (min n' k) (map (take n') sorted_f)))"

text \<open>
  \<open>np.quantile(f, percentiles, axis=1, interpolation='nearest')\<close> is library code; it is
  modelled from numpy's documented behaviour. Every quantile must lie in \<open>[0, 1]\<close>. For
  a row of \<open>n\<close> values the quantile \<open>q\<close> is the entry of the sorted row at index
  \<open>around(q * (n - 1))\<close>, where \<open>around\<close> rounds half to even; a row that holds a NaN
  yields NaN. On rows of length 0 the behaviour depends on the numpy version; the error of
  recent versions is used.
\<close>

definition around :: "real \<Rightarrow> int" where
  "around x =
     (let lo = \<lfloor>x\<rfloor>
      in if x - of_int lo < 1 / 2 then lo
         else if 1 / 2 < x - of_int lo then lo + 1
         else if even lo then lo else lo + 1)"

definition quantile_nearest :: "fl list \<Rightarrow> real \<Rightarrow> fl" where
  "quantile_nearest r q =
     (if NaN \<in> set r then NaN
      else np_sort r ! nat (around (q * real (length r - 1))))"

fun np_quantile_axis1 :: "ndarray \<Rightarrow> real list \<Rightarrow> error + ndarray" where
  "np_quantile_axis1 (Arr1 xs) qs =
     (if list_ex (\<lambda>q. q < 0 \<or> 1 < q) qs then Inl ValueError else Inl AxisError)"
| "np_quantile_axis1 (Arr2 n rows) qs =
     (if list_ex (\<lambda>q. q < 0 \<or> 1 < q) qs then Inl ValueError
      else if n = 0 then Inl IndexError
      else Inr (Arr2 (length rows) (map (\<lambda>q. map (\<lambda>r. quantile_nearest r q) rows) qs)))"

text \<open>\<open>np.transpose\<close> of a matrix.\<close>

fun transpose_arr :: "ndarray \<Rightarrow> ndarray" where
  "transpose_arr (Arr1 xs) = Arr1 xs"
| "transpose_arr (Arr2 n rows) = Arr2 (length rows) (map (\<lambda>j. column rows j) [0..<n])"

definition select_percentiles :: "ndarray \<Rightarrow> real list \<Rightarrow> error + ndarray" where
  "select_percentiles f percentiles =
     ebind (np_quantile_axis1 f percentiles) (\<lambda>q. Inr (transpose_arr q))"

section \<open>Stage 3: aggregation (t3.py)\<close>

fun f_mean :: "ndarray \<Rightarrow> error + ndarray" where
  "f_mean (Arr1 xs) = Inl AxisError"
| "f_mean (Arr2 n rows) = Inr (Arr1 (map (\<lambda>r. fdiv (fsum r) (Fin (real n))) rows))"

fun f_sum :: "ndarray \<Rightarrow> error + ndarray" where
  "f_sum (Arr1 xs) = Inl AxisError"
| "f_sum (Arr2 n rows) = Inr (Arr1 (map (\<lambda>r. fdiv (fsum r) (Fin (real n))) rows))"

text \<open>The column \<open>f[:, j]\<close>: an index outside the columns raises, and so does a second
  index on a one-dimensional array.\<close>

fun col :: "ndarray \<Rightarrow> nat \<Rightarrow> error + fl list" where
  "col (Arr1 xs) j = Inl IndexError"
| "col (Arr2 n rows) j = (if j < n then Inr (column rows j) else Inl IndexError)"

definition halve :: "fl list \<Rightarrow> fl list" where
  "halve xs = map (\<lambda>x. fdiv x (Fin 2)) xs"

definition f_skew :: "ndarray \<Rightarrow> bool \<Rightarrow> error + ndarray" where
  "f_skew f reverse =
     ebind (col f 0) (\<lambda>p10.
     ebind (col f 1) (\<lambda>p50.
     ebind (col f 2) (\<lambda>p90.
       let R = (if \<not> reverse then map2 fsub p50 (halve (map2 fadd p90 p10))
                else map2 fsub (halve (map2 fadd p90 p10)) p50);
           normaliser = halve (map2 fsub p90 p10)
       in Inr (Arr1 (map2 fdiv R normaliser)))))"

definition f_kurtosis :: "ndarray \<Rightarrow> error + ndarray" where
  "f_kurtosis f =
     ebind (col f 0) (\<lambda>p10.
     ebind (col f 1) (\<lambda>p25.
     ebind (col f 2) (\<lambda>p75.
     ebind (col f 3) (\<lambda>p90.
       Inr (Arr1 (map2 fdiv (map2 fsub p90 p10) (map2 fsub p75 p25)))))))"

section \<open>Common metrics (common_metrics.py)\<close>

definition maximin :: "ndarray \<Rightarrow> bool \<Rightarrow> error + ndarray" where
  "maximin f maximise =
     (let f1 = identity f maximise
      in ebind (worst_case f1) (\<lambda>f2. f_sum f2))"

definition maximax :: "ndarray \<Rightarrow> bool \<Rightarrow> error + ndarray" where
  "maximax f maximise =
     (let f1 = identity f maximise
      in ebind (best_case f1) (\<lambda>f2. f_sum f2))"

definition minimax_regret :: "ndarray \<Rightarrow> bool \<Rightarrow> error + ndarray" where
  "minimax_regret f maximise =
     ebind (regret_from_best_da f maximise) (\<lambda>f1.
     ebind (worst_case f1) (\<lambda>f2. f_sum f2))"

definition starrs_domain :: "ndarray \<Rightarrow> bool \<Rightarrow> fl \<Rightarrow> bool \<Rightarrow> error + ndarray" where
  "starrs_domain f maximise threshold accept_equal =
     (let f1 = satisfice f maximise threshold accept_equal;
          f2 = all_scenarios f1
      in f_mean f2)"

section \<open>Custom metrics (custom_metrics.py)\<close>







section \<open>Comparison of robustness values (comparisons.py)\<close>

text \<open>\<open>np.zeros((n, n))\<close>, and the assignment \<open>M[i, j] = v\<close>.\<close>

definition np_zeros :: "nat \<Rightarrow> fl list list" where
  "np_zeros n = replicate n (replicate n (Fin 0))"

definition set2 :: "fl list list \<Rightarrow> nat \<Rightarrow> nat \<Rightarrow> fl \<Rightarrow> fl list list" where
  "set2 M i j v = M[i := (M ! i)[j := v]]"

text \<open>\<open>np.average\<close> of a vector: the mean, NaN for the empty vector.\<close>

definition average :: "fl list \<Rightarrow> fl" where
  "average xs = fdiv (fsum xs) (Fin (real (length xs)))"

text \<open>The relative difference of two columns, in percent.\<close>

definition rel_delta :: "fl list \<Rightarrow> fl list \<Rightarrow> fl" where
  "rel_delta a b =
     (let delta = map2 fdiv (map fabs (map2 fsub a b)) (halve (map fabs (map2 fadd a b)))
      in fmul (average delta) (Fin 100))"

text \<open>
  The body of the inner loop. \<open>stats.kendalltau(x, y, nan_policy='omit')\<close> is scipy's and is
  a parameter of the model: any function from two columns to a value.
\<close>

definition similarity_step ::
  "(fl list \<Rightarrow> fl list \<Rightarrow> fl) \<Rightarrow> fl list list \<Rightarrow> nat \<Rightarrow> nat
     \<Rightarrow> fl list list \<times> fl list list \<Rightarrow> fl list list \<times> fl list list" where
  "similarity_step kendalltau R idx_1 idx_2 st =
     (case st of (deltas, taus) \<Rightarrow>
        let delta = rel_delta (column R idx_1) (column R idx_2);
            deltas1 = set2 deltas idx_1 idx_2 delta;
            deltas2 = set2 deltas1 idx_2 idx_1 delta;
            tau = kendalltau (column R idx_1) (column R idx_2);
            taus1 = set2 taus idx_1 idx_2 tau;
            taus2 = set2 taus1 idx_2 idx_1 tau
        in (deltas2, taus2))"

fun scenarios_similarity ::
  "(fl list \<Rightarrow> fl list \<Rightarrow> fl) \<Rightarrow> ndarray \<Rightarrow> error + (ndarray \<times> ndarray)" where
  "scenarios_similarity kendalltau (Arr1 xs) = Inl IndexError"
| "scenarios_similarity kendalltau (Arr2 n rows) =
     (case fold (\<lambda>idx_1. fold (similarity_step kendalltau rows idx_1) [idx_1..<n]) [0..<n]
             (np_zeros n, np_zeros n)
      of (deltas, taus) \<Rightarrow> Inr (Arr2 n deltas, Arr2 n taus))"

section \<open>Tabular evaluator (calc.py)\<close>

text \<open>
  A pandas data frame: the column names and the rows, each row holding one value per
  column. The index columns \<open>s_idx\<close> and \<open>l_idx\<close> are columns like the others. Column
  names are taken to be distinct.
\<close>

record dataframe =
  df_columns :: "string list"
  df_rows :: "fl list list"

text \<open>
  One entry of \<open>R_dict\<close>. Its \<open>kwargs\<close> field is a reference to a dictionary object, so that
  several entries may share one. The metric function receives the matrix and the unpacked
  keyword arguments, and reads the heap for the dictionaries they refer to; it is taken not
  to write to any dictionary itself. The code reads the entries and never assigns to them.
\<close>

record metric_def =
  md_f :: string
  md_maximise :: bool
  md_threshold :: "string option"
  md_func :: "heap \<Rightarrow> ndarray \<Rightarrow> dict \<Rightarrow> error + pyval"
  md_kwargs :: nat

fun get_loc :: "string list \<Rightarrow> string \<Rightarrow> nat option" where
  "get_loc [] c = None"
| "get_loc (x # xs) c = (if x = c then Some 0 else map_option Suc (get_loc xs c))"

text \<open>The values of one column, \<open>f_df[c]\<close> or \<open>f_df.iloc[:, f_df.columns.get_loc(c)].values\<close>.\<close>

definition col_values :: "dataframe \<Rightarrow> string \<Rightarrow> error + fl list" where
  "col_values f_df c =
     (case get_loc (df_columns f_df) c of
        None \<Rightarrow> Inl KeyError
      | Some j \<Rightarrow> Inr (column (df_rows f_df) j))"

text \<open>
  \<open>f_df.sort_values(['l_idx', 's_idx'], ascending=[True, True])\<close> returns a sorted copy
  (a stable sort on the pair of keys) and leaves \<open>f_df\<close> as it is.
\<close>

definition sort_values :: "dataframe \<Rightarrow> error + dataframe" where
  "sort_values f_df =
     (case (get_loc (df_columns f_df) ''l_idx'', get_loc (df_columns f_df) ''s_idx'') of
        (Some l, Some s) \<Rightarrow>
          Inr (f_df\<lparr>df_rows := sort_key (\<lambda>r. (fl_key (r ! l), fl_key (r ! s))) (df_rows f_df)\<rparr>)
      | _ \<Rightarrow> Inl KeyError)"

text \<open>\<open>sort_f_df\<close> calls \<open>sort_values\<close>, drops the sorted copy and returns its argument.\<close>

definition sort_f_df :: "dataframe \<Rightarrow> error + dataframe" where
  "sort_f_df f_df =
     (case sort_values f_df of
        Inl e \<Rightarrow> Inl e
      | Inr sorted_copy \<Rightarrow> Inr f_df)"

text \<open>\<open>Series.unique()\<close>: the distinct values in order of first appearance.\<close>

definition unique :: "fl list \<Rightarrow> fl list" where
  "unique xs = rev (remdups (rev xs))"

text \<open>The comparison \<open>==\<close> of two doubles, and \<open>np.allclose\<close> with its default tolerances
  on two vectors (broadcasting a vector of length one; other length mismatches raise).\<close>

definition feq :: "fl \<Rightarrow> fl \<Rightarrow> bool" where
  "feq a b = (a \<noteq> NaN \<and> a = b)"

fun isclose :: "fl \<Rightarrow> fl \<Rightarrow> bool" where
  "isclose (Fin x) (Fin y) = (\<bar>x - y\<bar> \<le> 1 / 10 ^ 8 + (1 / 10 ^ 5) * \<bar>y\<bar>)"
| "isclose PInf PInf = True"
| "isclose MInf MInf = True"
| "isclose _ _ = False"

definition allclose :: "fl list \<Rightarrow> fl list \<Rightarrow> error + bool" where
  "allclose a b =
     (if length a = length b then Inr (list_all2 isclose a b)
      else if length a = 1 then Inr (list_all (isclose (hd a)) b)
      else if length b = 1 then Inr (list_all (\<lambda>x. isclose x (hd b)) a)
      else Inl ValueError)"

text \<open>The loop of \<open>get_f_df_details\<close> over the scenario indices.\<close>

fun check_l_idxs :: "fl list \<Rightarrow> fl list \<Rightarrow> fl list \<Rightarrow> fl list \<Rightarrow> error + unit" where
  "check_l_idxs s_col l_col l_idxs [] = Inr ()"
| "check_l_idxs s_col l_col l_idxs (s_idx # rest) =
     (let relevant_l_idxs = map snd (filter (\<lambda>(s, l). feq s s_idx) (zip s_col l_col))
      in case allclose relevant_l_idxs l_idxs of
           Inl e \<Rightarrow> Inl e
         | Inr ok \<Rightarrow>
             if ok then check_l_idxs s_col l_col l_idxs rest else Inl AssertionError)"

definition get_f_df_details :: "dataframe \<Rightarrow> error + (fl list \<times> fl list)" where
  "get_f_df_details f_df0 =
     ebind (sort_f_df f_df0) (\<lambda>f_df.
     ebind (col_values f_df ''s_idx'') (\<lambda>s_col.
     ebind (col_values f_df ''l_idx'') (\<lambda>l_col.
       let s_idxs = unique s_col;
           l_idxs = unique l_col
       in ebind (check_l_idxs s_col l_col l_idxs s_idxs) (\<lambda>_. Inr (s_idxs, l_idxs)))))"

text \<open>\<open>np.reshape(values, newshape=(m, n))\<close> of a vector, row-major.\<close>

definition reshape :: "fl list \<Rightarrow> nat \<Rightarrow> nat \<Rightarrow> error + ndarray" where
  "reshape v m n =
     (if length v = m * n then Inr (Arr2 n (map (\<lambda>i. take n (drop (i * n) v)) [0..<m]))
      else Inl ValueError)"

text \<open>The assignment \<open>d[key] = v\<close> on the dictionary object at reference \<open>a\<close>.\<close>

definition set_item :: "heap \<Rightarrow> nat \<Rightarrow> string \<Rightarrow> pyval \<Rightarrow> heap" where
  "set_item h a key v = h[a := AList.update key v (h ! a)]"

text \<open>
  The part of the loop body that injects the threshold column, on the heap. \<open>kwargs\<close> is
  the object at the entry's reference. A missing \<open>t1_kwargs\<close> is bound to a new empty
  dictionary; the right-hand side of the assignment is evaluated before
  \<open>kwargs['t1_kwargs']\<close> is read; then \<open>threshold\<close> is written into the object that
  \<open>kwargs['t1_kwargs']\<close> refers to. The heap comes back as it stands, with the error if one
  was raised on the way.
\<close>

definition inject_threshold ::
  "dataframe \<Rightarrow> nat \<Rightarrow> nat \<Rightarrow> metric_def \<Rightarrow> heap \<Rightarrow> error option \<times> heap" where
  "inject_threshold f_df l_size s_size e h =
     (let kwargs = md_kwargs e
      in case md_threshold e of
           None \<Rightarrow> (None, h)
         | Some th \<Rightarrow>
             if th \<notin> set (df_columns f_df) then (Some AssertionError, h)
             else
               let h1 = (if ''t1_kwargs'' \<notin> set (map fst (h ! kwargs))
                         then set_item (h @ [[]]) kwargs ''t1_kwargs'' (PRef (length h))
                         else h)
               in case ebind (col_values f_df th) (\<lambda>v. reshape v l_size s_size) of
                    Inl err \<Rightarrow> (Some err, h1)
                  | Inr arr \<Rightarrow>
                      (case map_of (h1 ! kwargs) ''t1_kwargs'' of
                         Some (PRef t1_kwargs) \<Rightarrow>
                           if t1_kwargs < length h1
                           then (None, set_item h1 t1_kwargs ''threshold'' (PArr arr))
                           else (Some TypeError, h1)
                       | Some (PArr a) \<Rightarrow> (Some IndexError, h1)
                       | _ \<Rightarrow> (Some TypeError, h1)))"

text \<open>One pass of the loop over the metrics: the value computed (or the error raised) and
  the heap as the pass leaves it. An entry whose \<open>kwargs\<close> is no dictionary object raises.\<close>

definition metric_step ::
  "dataframe \<Rightarrow> nat \<Rightarrow> nat \<Rightarrow> metric_def \<Rightarrow> heap \<Rightarrow> (error + pyval) \<times> heap" where
  "metric_step f_df l_size s_size e h =
     (let kwargs = md_kwargs e
      in if \<not> kwargs < length h then (Inl TypeError, h)
         else
           case inject_threshold f_df l_size s_size e h of
             (Some err, h1) \<Rightarrow> (Inl err, h1)
           | (None, h1) \<Rightarrow>
               (case ebind (col_values f_df (md_f e)) (\<lambda>v. reshape v l_size s_size) of
                  Inl err \<Rightarrow> (Inl err, h1)
                | Inr f \<Rightarrow>
                    let h2 = set_item h1 kwargs ''maximise'' (PBool (md_maximise e))
                    in (md_func e h2 f (h2 ! kwargs), h2)))"

text \<open>The loop over \<open>R_dict\<close>: the results so far are \<open>R\<close>; the heap comes back as the loop
  leaves it, also when a pass raises.\<close>

fun f_to_R_loop ::
  "dataframe \<Rightarrow> nat \<Rightarrow> nat \<Rightarrow> (string \<times> metric_def) list \<Rightarrow> (string \<times> pyval) list \<Rightarrow> heap
     \<Rightarrow> (error + (string \<times> pyval) list) \<times> heap" where
  "f_to_R_loop f_df l_size s_size [] R h = (Inr R, h)"
| "f_to_R_loop f_df l_size s_size ((R_metric, e) # rest) R h =
     (case metric_step f_df l_size s_size e h of
        (Inl err, h1) \<Rightarrow> (Inl err, h1)
      | (Inr v, h1) \<Rightarrow> f_to_R_loop f_df l_size s_size rest (AList.update R_metric v R) h1)"

text \<open>\<open>f_to_R\<close> on a heap: the mapping of results, or the error raised, together with the
  heap as the call leaves it.\<close>

definition f_to_R ::
  "dataframe \<Rightarrow> (string \<times> metric_def) list \<Rightarrow> heap
     \<Rightarrow> (error + (string \<times> pyval) list) \<times> heap" where
  "f_to_R f_df0 R_dict h =
     (let f_metrics = map (\<lambda>(R_name, e). md_f e) R_dict;
          df_cols = df_columns f_df0
      in if \<not> list_all (\<lambda>f_metric. f_metric \<in> set df_cols) f_metrics
         then (Inl AssertionError, h)
         else
           case sort_f_df f_df0 of
             Inl err \<Rightarrow> (Inl err, h)
           | Inr f_df \<Rightarrow>
               (case get_f_df_details f_df of
                  Inl err \<Rightarrow> (Inl err, h)
                | Inr (s_idxs, l_idxs) \<Rightarrow>
                    f_to_R_loop f_df (length l_idxs) (length s_idxs) R_dict [] h))"

text \<open>The call \<open>maximin(f, **kwargs)\<close>: the only keyword \<open>maximin\<close> accepts is
  \<open>maximise\<close>, a Boolean, True when absent.\<close>

definition call_maximin :: "heap \<Rightarrow> ndarray \<Rightarrow> dict \<Rightarrow> error + pyval" where
  "call_maximin h f kwargs =
     (if list_ex (\<lambda>k. k \<noteq> ''maximise'') (map fst kwargs) then Inl TypeError
      else case map_of kwargs ''maximise'' of
             None \<Rightarrow> ebind (maximin f True) (\<lambda>R. Inr (PArr R))
           | Some (PBool b) \<Rightarrow> ebind (maximin f b) (\<lambda>R. Inr (PArr R))
           | Some _ \<Rightarrow> Inl TypeError)"

section \<open>Predicates used in the statements\<close>

fun is_fin :: "fl \<Rightarrow> bool" where
  "is_fin (Fin a) = True"
| "is_fin _ = False"

fun finite_arr :: "ndarray \<Rightarrow> bool" where
  "finite_arr (Arr1 xs) = list_all is_fin xs"
| "finite_arr (Arr2 n rows) = list_all (list_all is_fin) rows"

fun in_unit :: "fl \<Rightarrow> bool" where
  "in_unit (Fin v) = (0 \<le> v \<and> v \<le> 1)"
| "in_unit _ = False"

fun nonzero_fin :: "fl \<Rightarrow> bool" where
  "nonzero_fin (Fin v) = (v \<noteq> 0)"
| "nonzero_fin _ = False"

text \<open>Ascending order of doubles as \<open>np.sort\<close> understands it: \<open>a\<close> may stand before
  \<open>b\<close> when \<open>a <= b\<close>, and NaN stands after everything.\<close>

definition np_le :: "fl \<Rightarrow> fl \<Rightarrow> bool" where
  "np_le a b = (b = NaN \<or> (a \<noteq> NaN \<and> fge b a))"

definition ascending :: "fl list \<Rightarrow> bool" where
  "ascending xs = sorted_wrt np_le xs"

text \<open>The matrix of the test suite and of the specification's concrete scenarios.\<close>

definition f_example :: ndarray where
  "f_example = Arr2 3 [[Fin (99/100), Fin 1, Fin (1/2)], [Fin (69/100), Fin (6/10), Fin (6/10)]]"

section \<open>Notions used in the proofs about the comparison loops\<close>

text \<open>A square matrix of side \<open>n\<close>; one pass of the loop body on one matrix, for an entry
  function \<open>g\<close>; the two nested loops up to row \<open>k\<close>; and one term of the relative
  difference of a column with itself.\<close>

definition sq :: "nat \<Rightarrow> fl list list \<Rightarrow> bool" where
  "sq n M \<longleftrightarrow> length M = n \<and> (\<forall>r\<in>set M. length r = n)"

definition fill_step :: "(nat \<Rightarrow> nat \<Rightarrow> fl) \<Rightarrow> nat \<Rightarrow> nat \<Rightarrow> fl list list \<Rightarrow> fl list list" where
  "fill_step g i j M = set2 (set2 M i j (g i j)) j i (g i j)"

definition fill_all :: "(nat \<Rightarrow> nat \<Rightarrow> fl) \<Rightarrow> nat \<Rightarrow> nat \<Rightarrow> fl list list \<Rightarrow> fl list list" where
  "fill_all g n k M = fold (\<lambda>i. fold (fill_step g i) [i..<n]) [0..<k] M"

definition self_term :: "fl \<Rightarrow> fl" where
  "self_term x = fdiv (fabs (fsub x x)) (fdiv (fabs (fadd x x)) (Fin 2))"

text \<open>Kendall's tau on the example matrices below, whose columns are all ordered alike:
  every pair of rows is concordant, so scipy returns 1.\<close>

definition tau_all_concordant :: "fl list \<Rightarrow> fl list \<Rightarrow> fl" where
  "tau_all_concordant x y = Fin 1"

section \<open>What a call of the evaluator leaves on the heap\<close>











section \<open>Example tables\<close>

text \<open>
  Two alternatives and two scenarios, one performance column and one column of thresholds.
  The first table lists its rows by \<open>(l_idx, s_idx)\<close>; the second holds the same rows
  listed by \<open>(s_idx, l_idx)\<close>.
\<close>

definition table_by_alternative :: dataframe where
  "table_by_alternative =
     \<lparr>df_columns = [''s_idx'', ''l_idx'', ''f1'', ''critical''],
      df_rows = [[Fin 0, Fin 0, Fin 1, Fin 2], [Fin 1, Fin 0, Fin 2, Fin 2],
                 [Fin 0, Fin 1, Fin 3, Fin 2], [Fin 1, Fin 1, Fin 4, Fin 5]]\<rparr>"

definition table_by_scenario :: dataframe where
  "table_by_scenario =
     \<lparr>df_columns = [''s_idx'', ''l_idx'', ''f1'', ''critical''],
      df_rows = [[Fin 0, Fin 0, Fin 1, Fin 2], [Fin 0, Fin 1, Fin 3, Fin 2],
                 [Fin 1, Fin 0, Fin 2, Fin 2], [Fin 1, Fin 1, Fin 4, Fin 5]]\<rparr>"

text \<open>\<open>{'Maximin': {'f': 'f1', 'maximise': True, 'threshold': None, 'func': maximin,
  'kwargs': {}}}\<close>, the \<open>kwargs\<close> dictionary being object 0 of the heap \<open>[{}]\<close>.\<close>

definition maximin_dict :: "(string \<times> metric_def) list" where
  "maximin_dict =
     [(''Maximin'', \<lparr>md_f = ''f1'', md_maximise = True, md_threshold = None,
                     md_func = call_maximin, md_kwargs = 0\<rparr>)]"



section \<open>Negation, minimum and maximum\<close>

lemma fneg_fneg [simp]: "fneg (fneg x) = x"
  by (cases x) simp_all

lemma fneg_fmin: "fneg (fmin a b) = fmax (fneg a) (fneg b)"
  by (cases a; cases b) (simp_all add: fmin_def fmax_def)

lemma fneg_foldl_fmin: "fneg (foldl fmin x xs) = foldl fmax (fneg x) (map fneg xs)"
  by (induction xs arbitrary: x) (simp_all add: fneg_fmin)

lemma fneg_amin_row: "fneg (amin_row r) = amax_row (map fneg r)"
  by (cases r) (simp_all add: fneg_foldl_fmin)

lemma amin_row_dual: "amin_row r = fneg (amax_row (map fneg r))"
  using fneg_amin_row [of r] by (metis fneg_fneg)

lemma prepare_f_neg: "prepare_f (neg_arr f) = neg_arr (prepare_f f)"
  by (cases f) simp_all

lemma single_sum_neg:
  "fdiv (fsum [fneg x]) (Fin 1) = fneg (fdiv (fsum [x]) (Fin 1))"
  by (cases x) (simp_all add: fsum_def inf_of_sign_def)

lemma worst_case_dual: "worst_case f = neg_res (best_case (neg_arr f))"
  by (cases f) (simp_all add: neg_res_def ebind_def amin_row_dual comp_def)

lemma maximin_dual: "maximin f True = neg_res (maximax (neg_arr f) True)"
proof -
  obtain n rows where p: "prepare_f f = Arr2 n rows" by (cases f) auto
  show ?thesis
    by (simp add: maximin_def maximax_def identity_def prepare_f_neg p neg_res_def ebind_def
        amin_row_dual comp_def single_sum_neg [symmetric])
qed

lemma foldl_fmin_fin: "is_fin x \<Longrightarrow> list_all is_fin xs \<Longrightarrow> is_fin (foldl fmin x xs)"
  by (induction xs arbitrary: x) (auto simp: fmin_def)

lemma amin_row_fin: "r \<noteq> [] \<Longrightarrow> list_all is_fin r \<Longrightarrow> is_fin (amin_row r)"
  by (cases r) (simp_all add: foldl_fmin_fin)

lemma fin_cancel:
  "is_fin x \<Longrightarrow> fadd (fdiv (fsum [x]) (Fin 1)) (fneg (fdiv (fsum [x]) (Fin 1))) = Fin 0"
  by (cases x) (simp_all add: fsum_def)

lemma maximin_plus_maximax:
  assumes "wf_arr (Arr2 n rows)" "finite_arr (Arr2 n rows)" "0 < n"
  shows "add_res (maximin (Arr2 n rows) True) (maximax (neg_arr (Arr2 n rows)) True)
         = Inr (Arr1 (replicate (length rows) (Fin 0)))"
proof -
  have "map2 fadd (map (\<lambda>r. fdiv (fsum [amin_row r]) (Fin 1)) rows)
            (map (\<lambda>r. fdiv (fsum [amax_row (map fneg r)]) (Fin 1)) rows)
        = replicate (length rows) (Fin 0)"
    using assms
  proof (induction rows)
    case Nil
    then show ?case by simp
  next
    case (Cons r rows)
    then have "r \<noteq> []" "list_all is_fin r" by auto
    then have "is_fin (amin_row r)" by (rule amin_row_fin)
    then have "fadd (fdiv (fsum [amin_row r]) (Fin 1))
                 (fdiv (fsum [amax_row (map fneg r)]) (Fin 1)) = Fin 0"
      using fin_cancel [of "amin_row r"] by (simp add: fneg_amin_row [symmetric] single_sum_neg)
    then show ?case using Cons by simp
  qed
  then show ?thesis using assms
    by (simp add: add_res_def maximin_def maximax_def identity_def ebind_def comp_def)
qed

section \<open>Duality, the concrete scenarios and the sign of the threshold\<close>

text \<open>
  C2, as stated: \<open>maximin(f, maximise=True) + (-maximax(-f, maximise=True)) == 0\<close>
  elementwise. On the one-by-one matrix \<open>[[1]]\<close> both summands are \<open>[1]\<close>, so the sum is
  \<open>[2]\<close>, not \<open>[0]\<close>.
\<close>

theorem maximin_plus_neg_maximax_counterexample:
  "add_res (maximin (Arr2 1 [[Fin 1]]) True)
           (neg_res (maximax (neg_arr (Arr2 1 [[Fin 1]])) True)) = Inr (Arr1 [Fin 2])"
  by (simp add: add_res_def neg_res_def maximin_def maximax_def identity_def ebind_def fsum_def)

text \<open>
  C2, amended: \<open>worst_case\<close> and \<open>best_case\<close> are exact row-wise duals,
  \<open>worst_case(f) == -best_case(-f)\<close> for every array \<open>f\<close> (both raise together);
  \<open>maximin(f, maximise=True) == -maximax(-f, maximise=True)\<close> for every \<open>f\<close>; and for every
  matrix of shape \<open>(m, n)\<close> with \<open>n \<ge> 1\<close> and finite entries
  \<open>maximin(f, maximise=True) + maximax(-f, maximise=True) == 0\<close> elementwise.
\<close>

theorem worst_best_duality:
  "worst_case f = neg_res (best_case (neg_arr f))
   \<and> maximin f True = neg_res (maximax (neg_arr f) True)
   \<and> (wf_arr (Arr2 n rows) \<longrightarrow> finite_arr (Arr2 n rows) \<longrightarrow> 0 < n \<longrightarrow>
        add_res (maximin (Arr2 n rows) True) (maximax (neg_arr (Arr2 n rows)) True)
          = Inr (Arr1 (replicate (length rows) (Fin 0))))"
  using worst_case_dual maximin_dual maximin_plus_maximax by blast

theorem worst_best_duality_witness:
  "wf_arr f_example \<and> finite_arr f_example \<and> (0::nat) < 3
   \<and> worst_case f_example = neg_res (best_case (neg_arr f_example))
   \<and> maximin f_example True = neg_res (maximax (neg_arr f_example) True)
   \<and> add_res (maximin f_example True) (maximax (neg_arr f_example) True)
       = Inr (Arr1 [Fin 0, Fin 0])"
proof -
  have r: "replicate (length [[Fin (99/100), Fin 1, Fin (1/2)],
             [Fin (69/100), Fin (6/10), Fin (6/10)]]) (Fin 0) = [Fin 0, Fin 0]"
    by simp
  note w = worst_best_duality [of f_example 3
      "[[Fin (99/100), Fin 1, Fin (1/2)], [Fin (69/100), Fin (6/10), Fin (6/10)]]",
      folded f_example_def, unfolded r]
  have h: "wf_arr f_example" "finite_arr f_example" "(0::nat) < 3"
    by (simp_all add: f_example_def)
  from w h show ?thesis by blast
qed

text \<open>
  C6: on \<open>f = [[0.99, 1.0, 0.5], [0.69, 0.6, 0.6]]\<close>, \<open>maximin(f, maximise=True)\<close> is
  \<open>[0.5, 0.6]\<close>, \<open>maximin(f, maximise=False)\<close> is \<open>[-1.0, -0.69]\<close> and
  \<open>minimax_regret(f, maximise=True)\<close> is \<open>[-0.1, -0.4]\<close>. The values are exact in real
  arithmetic, which is what the floating tolerance of the claim allows for.
\<close>

theorem concrete_maximin_minimax_regret:
  "maximin f_example True = Inr (Arr1 [Fin (5/10), Fin (6/10)])
   \<and> maximin f_example False = Inr (Arr1 [Fin (- 1), Fin (- (69/100))])
   \<and> minimax_regret f_example True = Inr (Arr1 [Fin (- (1/10)), Fin (- (4/10))])"
  by (simp add: f_example_def maximin_def minimax_regret_def regret_from_best_da_def
      identity_def ebind_def fsum_def fmin_def fmax_def fsub_def upt_rec column_def)

text \<open>
  C7: for every array \<open>f\<close> and every scalar threshold \<open>t\<close>,
  \<open>satisfice(f, maximise=False, threshold=t, accept_equal=True)\<close> equals
  \<open>satisfice(-f, maximise=True, threshold=-t, accept_equal=True)\<close>.
\<close>

theorem satisfice_threshold_sign:
  "satisfice f False t True = satisfice (neg_arr f) True (fneg t) True"
  by (cases f) (simp_all add: satisfice_def identity_def)

section \<open>Starr's domain\<close>

lemma fsum_indicator:
  "\<exists>k. fsum (map (\<lambda>x. if P x then Fin 1 else Fin 0) r) = Fin k \<and> 0 \<le> k
       \<and> k \<le> real (length r)"
  by (induction r) (auto simp: fsum_def)

lemma mean_indicator:
  assumes "0 < length r"
  shows "in_unit (fdiv (fsum (map (\<lambda>x. if P x then Fin 1 else Fin 0) r))
                       (Fin (real (length r))))"
proof -
  obtain k where k: "fsum (map (\<lambda>x. if P x then Fin 1 else Fin 0) r) = Fin k"
      "0 \<le> k" "k \<le> real (length r)"
    using fsum_indicator by blast
  then show ?thesis using assms by (simp add: divide_le_eq)
qed

text \<open>
  C10: for every performance matrix \<open>f\<close> of shape \<open>(m, n)\<close> (the data model has \<open>n \<ge> 1\<close>),
  every \<open>maximise\<close> flag, scalar threshold and \<open>accept_equal\<close> flag, \<open>starrs_domain\<close> returns
  a vector of \<open>m\<close> entries, each a finite value in the closed interval \<open>[0, 1]\<close>.
\<close>

theorem starrs_domain_unit_interval:
  assumes "wf_arr (Arr2 n rows)" "0 < n"
  shows "\<exists>R. starrs_domain (Arr2 n rows) maximise threshold accept_equal = Inr (Arr1 R)
            \<and> length R = length rows \<and> list_all in_unit R"
proof -
  have "list_all in_unit
          (map (\<lambda>r. fdiv (fsum (map (\<lambda>x. if P x then Fin 1 else Fin 0) (g r))) (Fin (real n)))
             rows)"
    if g: "\<And>r. length (g r) = length r" for P g
  proof -
    have "in_unit (fdiv (fsum (map (\<lambda>x. if P x then Fin 1 else Fin 0) (g r))) (Fin (real n)))"
      if "r \<in> set rows" for r
    proof -
      from that assms have "length (g r) = n" by (simp add: list_all_iff g)
      then show ?thesis using mean_indicator [of "g r" P] assms(2) by simp
    qed
    then show ?thesis by (simp add: list_all_iff)
  qed
  from this [of "\<lambda>r. r"] this [of "map fneg"]
  show ?thesis
    by (simp add: starrs_domain_def satisfice_def identity_def all_scenarios_def comp_def Let_def)
qed

theorem starrs_domain_unit_interval_witness:
  "wf_arr (Arr2 3 [[Fin (1/2), Fin (99/100), Fin 1], [Fin (6/10), Fin (65/100), Fin (69/100)]])
   \<and> (0::nat) < 3
   \<and> starrs_domain
        (Arr2 3 [[Fin (1/2), Fin (99/100), Fin 1], [Fin (6/10), Fin (65/100), Fin (69/100)]])
        True (Fin (65/100)) False = Inr (Arr1 [Fin (2/3), Fin (1/3)])
   \<and> list_all in_unit [Fin (2/3), Fin (1/3)]"
  using starrs_domain_unit_interval [of 3
      "[[Fin (1/2), Fin (99/100), Fin 1], [Fin (6/10), Fin (65/100), Fin (69/100)]]"
      True "Fin (65/100)" False]
  by (simp add: starrs_domain_def satisfice_def identity_def all_scenarios_def fsum_def)

section \<open>Skew and kurtosis\<close>

text \<open>
  C5, as stated: \<open>f_skew\<close> raises whenever its input does not have exactly 3 columns and
  \<open>f_kurtosis\<close> whenever it does not have exactly 4. With 4 and 5 columns they return a
  value computed from the leading columns; and with too few columns the error is numpy's
  \<open>IndexError\<close> (the program defines no error class of its own).
\<close>

theorem f_skew_extra_columns_counterexample:
  "f_skew (Arr2 4 [[Fin 1, Fin 2, Fin 4, Fin 9]]) False = Inr (Arr1 [Fin (- (1/3))])
   \<and> f_kurtosis (Arr2 5 [[Fin 1, Fin 2, Fin 4, Fin 9, Fin 0]]) = Inr (Arr1 [Fin 4])
   \<and> f_skew (Arr2 2 [[Fin 1, Fin 2]]) False = Inl IndexError"
  by (simp add: f_skew_def f_kurtosis_def ebind_def halve_def fsub_def column_def)

text \<open>
  C5, amended: \<open>f_skew\<close> raises \<open>IndexError\<close> whenever its input has fewer than 3 columns
  and \<open>f_kurtosis\<close> whenever its input has fewer than 4; with at least that many columns
  neither raises: each returns one value per row, computed from the first 3 (respectively 4)
  columns only.
\<close>

theorem f_skew_kurtosis_columns:
  "(n < 3 \<longrightarrow> f_skew (Arr2 n rows) reverse = Inl IndexError)
   \<and> (n < 4 \<longrightarrow> f_kurtosis (Arr2 n rows) = Inl IndexError)
   \<and> (3 \<le> n \<longrightarrow>
        f_skew (Arr2 n rows) reverse = f_skew (Arr2 3 (map (take 3) rows)) reverse
        \<and> (\<exists>R. f_skew (Arr2 n rows) reverse = Inr (Arr1 R) \<and> length R = length rows))
   \<and> (4 \<le> n \<longrightarrow>
        f_kurtosis (Arr2 n rows) = f_kurtosis (Arr2 4 (map (take 4) rows))
        \<and> (\<exists>R. f_kurtosis (Arr2 n rows) = Inr (Arr1 R) \<and> length R = length rows))"
proof -
  have a: "f_skew (Arr2 n rows) reverse = Inl IndexError" if "n < 3"
    using that by (simp add: f_skew_def ebind_def)
  have b: "f_kurtosis (Arr2 n rows) = Inl IndexError" if "n < 4"
    using that by (simp add: f_kurtosis_def ebind_def)
  have c: "f_skew (Arr2 n rows) reverse = f_skew (Arr2 3 (map (take 3) rows)) reverse"
    if "3 \<le> n"
    using that by (simp add: f_skew_def ebind_def comp_def column_def)
  have d: "\<exists>R. f_skew (Arr2 n rows) reverse = Inr (Arr1 R) \<and> length R = length rows"
    if "3 \<le> n"
    using that by (simp add: f_skew_def ebind_def halve_def column_def)
  have e: "f_kurtosis (Arr2 n rows) = f_kurtosis (Arr2 4 (map (take 4) rows))" if "4 \<le> n"
    using that by (simp add: f_kurtosis_def ebind_def comp_def column_def)
  have f: "\<exists>R. f_kurtosis (Arr2 n rows) = Inr (Arr1 R) \<and> length R = length rows"
    if "4 \<le> n"
    using that by (simp add: f_kurtosis_def ebind_def column_def)
  from a b c d e f show ?thesis by blast
qed

theorem f_skew_kurtosis_columns_witness:
  "(2::nat) < 3 \<and> f_skew (Arr2 2 [[Fin 1, Fin 2]]) True = Inl IndexError
   \<and> f_kurtosis (Arr2 2 [[Fin 1, Fin 2]]) = Inl IndexError
   \<and> (3::nat) \<le> 5 \<and> (4::nat) \<le> 5
   \<and> f_skew (Arr2 5 [[Fin 1, Fin 2, Fin 4, Fin 9, Fin 0]]) False
       = f_skew (Arr2 3 [[Fin 1, Fin 2, Fin 4]]) False
   \<and> f_kurtosis (Arr2 5 [[Fin 1, Fin 2, Fin 4, Fin 9, Fin 0]])
       = f_kurtosis (Arr2 4 [[Fin 1, Fin 2, Fin 4, Fin 9]])"
  using f_skew_kurtosis_columns [of 2 "[[Fin 1, Fin 2]]" True]
    f_skew_kurtosis_columns [of 5 "[[Fin 1, Fin 2, Fin 4, Fin 9, Fin 0]]" False]
  by simp

section \<open>The worst half\<close>

lemma half_count_ceiling: "half_count n = nat \<lceil>real n / 2\<rceil>"
proof (cases "even n")
  case True
  then obtain k where k: "n = 2 * k" by (auto elim: evenE)
  have "\<lfloor>real n / 2 + 51 / 100\<rfloor> = int k"
    unfolding k by (rule floor_unique) simp_all
  moreover have "\<lceil>real n / 2\<rceil> = int k"
    unfolding k by (rule ceiling_unique) simp_all
  ultimately show ?thesis by (simp add: half_count_def)
next
  case False
  then obtain k where k: "n = 2 * k + 1" by (auto elim: oddE)
  have "\<lfloor>real n / 2 + 51 / 100\<rfloor> = int k + 1"
    unfolding k by (rule floor_unique) (simp_all add: field_simps)
  moreover have "\<lceil>real n / 2\<rceil> = int k + 1"
    unfolding k by (rule ceiling_unique) (simp_all add: field_simps)
  ultimately show ?thesis by (simp add: half_count_def)
qed

lemma half_count_le: "half_count n \<le> n"
  unfolding half_count_ceiling by (simp add: nat_le_iff ceiling_le_iff)

lemma fl_key_le: "fl_key a \<le> fl_key b \<longleftrightarrow> np_le a b"
  by (cases a; cases b) (auto simp: np_le_def)

lemma ascending_np_sort: "ascending (np_sort r)"
proof -
  have "sorted (map fl_key (sort_key fl_key r))" by simp
  then show ?thesis
    unfolding ascending_def np_sort_def sorted_map by (simp add: fl_key_le)
qed

lemma mset_np_sort: "mset (np_sort r) = mset r"
  by (simp add: np_sort_def)

text \<open>
  C9: for every matrix \<open>f\<close> of shape \<open>(m, n)\<close>, \<open>worst_half\<close> returns the first
  \<open>int(n/2 + 0.51)\<close> columns of the row-wise ascending sort of \<open>f\<close>, and that count equals
  \<open>ceil(n/2)\<close> for every \<open>n\<close>. Row by row: the kept values followed by some dropped values
  are a rearrangement of the row, in ascending order (so every kept value is at most every
  dropped one), and a row of \<open>n\<close> values keeps \<open>int(n/2 + 0.51)\<close> of them.
\<close>

theorem worst_half_ceiling:
  "half_count n = nat \<lceil>real n / 2\<rceil>
   \<and> (\<exists>kept. worst_half (Arr2 n rows) = Inr (Arr2 (half_count n) kept)
         \<and> length kept = length rows
         \<and> (\<forall>i<length rows. \<exists>dropped.
               mset (kept ! i @ dropped) = mset (rows ! i)
               \<and> ascending (kept ! i @ dropped)
               \<and> (\<forall>x\<in>set (kept ! i). \<forall>y\<in>set dropped. np_le x y)
               \<and> (length (rows ! i) = n \<longrightarrow> length (kept ! i) = half_count n)))"
proof -
  let ?k = "half_count n"
  let ?kept = "map (\<lambda>r. take ?k (np_sort r)) rows"
  have w: "worst_half (Arr2 n rows) = Inr (Arr2 ?k ?kept)"
    using half_count_le [of n] by (simp add: comp_def min_def Let_def)
  have p: "\<exists>dropped. mset (?kept ! i @ dropped) = mset (rows ! i)
             \<and> ascending (?kept ! i @ dropped)
             \<and> (\<forall>x\<in>set (?kept ! i). \<forall>y\<in>set dropped. np_le x y)
             \<and> (length (rows ! i) = n \<longrightarrow> length (?kept ! i) = ?k)"
    if i: "i < length rows" for i
  proof (intro exI [of _ "drop ?k (np_sort (rows ! i))"] conjI impI)
    have a: "ascending (take ?k (np_sort (rows ! i)) @ drop ?k (np_sort (rows ! i)))"
      by (simp add: ascending_np_sort)
    show "mset (?kept ! i @ drop ?k (np_sort (rows ! i))) = mset (rows ! i)"
      using i by (simp add: mset_np_sort)
    show "ascending (?kept ! i @ drop ?k (np_sort (rows ! i)))"
      using i a by simp
    show "\<forall>x\<in>set (?kept ! i). \<forall>y\<in>set (drop ?k (np_sort (rows ! i))). np_le x y"
      using i a unfolding ascending_def sorted_wrt_append by simp
    show "length (?kept ! i) = ?k" if "length (rows ! i) = n"
      using that i half_count_le [of n] by (simp add: np_sort_def)
  qed
  from w p half_count_ceiling [of n] show ?thesis by auto
qed

theorem worst_half_ceiling_witness:
  "worst_half (Arr2 3 [[Fin 3, Fin 1, Fin 2], [Fin 5, NaN, MInf]])
     = Inr (Arr2 2 [[Fin 1, Fin 2], [MInf, Fin 5]])
   \<and> half_count 3 = 2 \<and> (0::nat) < 2
   \<and> (\<exists>dropped. mset ([Fin 1, Fin 2] @ dropped) = mset [Fin 3, Fin 1, Fin 2]
         \<and> ascending ([Fin 1, Fin 2] @ dropped)
         \<and> (\<forall>x\<in>set [Fin 1, Fin 2]. \<forall>y\<in>set dropped. np_le x y))"
proof -
  have e: "worst_half (Arr2 3 [[Fin 3, Fin 1, Fin 2], [Fin 5, NaN, MInf]])
     = Inr (Arr2 2 [[Fin 1, Fin 2], [MInf, Fin 5]])"
    by code_simp
  have h: "half_count 3 = 2" by code_simp
  from worst_half_ceiling [of 3 "[[Fin 3, Fin 1, Fin 2], [Fin 5, NaN, MInf]]"]
  obtain kept where k:
    "worst_half (Arr2 3 [[Fin 3, Fin 1, Fin 2], [Fin 5, NaN, MInf]])
       = Inr (Arr2 (half_count 3) kept)"
    "\<forall>i<length [[Fin 3, Fin 1, Fin 2], [Fin 5, NaN, MInf]]. \<exists>dropped.
        mset (kept ! i @ dropped) = mset ([[Fin 3, Fin 1, Fin 2], [Fin 5, NaN, MInf]] ! i)
        \<and> ascending (kept ! i @ dropped)
        \<and> (\<forall>x\<in>set (kept ! i). \<forall>y\<in>set dropped. np_le x y)
        \<and> (length ([[Fin 3, Fin 1, Fin 2], [Fin 5, NaN, MInf]] ! i) = 3
             \<longrightarrow> length (kept ! i) = half_count 3)"
    by blast
  from k(1) e have kept: "kept = [[Fin 1, Fin 2], [MInf, Fin 5]]" by simp
  from k(2) [rule_format, of 0] obtain dropped where
    "mset (kept ! 0 @ dropped) = mset [Fin 3, Fin 1, Fin 2]" "ascending (kept ! 0 @ dropped)"
    "\<forall>x\<in>set (kept ! 0). \<forall>y\<in>set dropped. np_le x y"
    by auto
  then have "\<exists>dropped. mset ([Fin 1, Fin 2] @ dropped) = mset [Fin 3, Fin 1, Fin 2]
         \<and> ascending ([Fin 1, Fin 2] @ dropped)
         \<and> (\<forall>x\<in>set [Fin 1, Fin 2]. \<forall>y\<in>set dropped. np_le x y)"
    unfolding kept by auto
  with e h show ?thesis by simp
qed

section \<open>Percentile selection at the extremes\<close>

lemma fl_key_inj: "fl_key a = fl_key b \<Longrightarrow> a = b"
  by (cases a; cases b) simp_all

lemma fge_key: "a \<noteq> NaN \<Longrightarrow> b \<noteq> NaN \<Longrightarrow> fge b a \<longleftrightarrow> fl_key a \<le> fl_key b"
  by (cases a; cases b) auto

lemma foldl_fmin_NaN: "x = NaN \<or> NaN \<in> set xs \<Longrightarrow> foldl fmin x xs = NaN"
  by (induction xs arbitrary: x) (auto simp: fmin_def)

lemma foldl_fmax_NaN: "x = NaN \<or> NaN \<in> set xs \<Longrightarrow> foldl fmax x xs = NaN"
  by (induction xs arbitrary: x) (auto simp: fmax_def)

lemma foldl_fmin_least:
  "x \<noteq> NaN \<Longrightarrow> NaN \<notin> set xs \<Longrightarrow>
   foldl fmin x xs \<in> set (x # xs) \<and> (\<forall>y\<in>set (x # xs). fl_key (foldl fmin x xs) \<le> fl_key y)"
proof (induction xs arbitrary: x)
  case Nil
  then show ?case by simp
next
  case (Cons a xs)
  then have a: "a \<noteq> NaN" "NaN \<notin> set xs" by auto
  have m: "fmin x a = (if fl_key x \<le> fl_key a then x else a)"
    using Cons.prems(1) a(1) by (simp add: fmin_def fge_key)
  then have "fmin x a \<noteq> NaN" using Cons.prems(1) a(1) by simp
  from Cons.IH [OF this a(2)]
  have ih: "foldl fmin (fmin x a) xs \<in> set (fmin x a # xs)"
    "\<forall>y\<in>set (fmin x a # xs). fl_key (foldl fmin (fmin x a) xs) \<le> fl_key y" by auto
  have k: "fl_key (fmin x a) \<le> fl_key x" "fl_key (fmin x a) \<le> fl_key a"
    using m by auto
  from ih(2) have "fl_key (foldl fmin (fmin x a) xs) \<le> fl_key (fmin x a)" by simp
  with k have "fl_key (foldl fmin (fmin x a) xs) \<le> fl_key x"
    "fl_key (foldl fmin (fmin x a) xs) \<le> fl_key a" by auto
  moreover have "foldl fmin (fmin x a) xs \<in> set (x # a # xs)" using ih(1) m by (auto split: if_splits)
  ultimately show ?case using ih(2) by simp
qed

lemma foldl_fmax_greatest:
  "x \<noteq> NaN \<Longrightarrow> NaN \<notin> set xs \<Longrightarrow>
   foldl fmax x xs \<in> set (x # xs) \<and> (\<forall>y\<in>set (x # xs). fl_key y \<le> fl_key (foldl fmax x xs))"
proof (induction xs arbitrary: x)
  case Nil
  then show ?case by simp
next
  case (Cons a xs)
  then have a: "a \<noteq> NaN" "NaN \<notin> set xs" by auto
  have m: "fmax x a = (if fl_key a \<le> fl_key x then x else a)"
    using Cons.prems(1) a(1) by (simp add: fmax_def fge_key)
  then have "fmax x a \<noteq> NaN" using Cons.prems(1) a(1) by simp
  from Cons.IH [OF this a(2)]
  have ih: "foldl fmax (fmax x a) xs \<in> set (fmax x a # xs)"
    "\<forall>y\<in>set (fmax x a # xs). fl_key y \<le> fl_key (foldl fmax (fmax x a) xs)" by auto
  have k: "fl_key x \<le> fl_key (fmax x a)" "fl_key a \<le> fl_key (fmax x a)"
    using m by auto
  from ih(2) have "fl_key (fmax x a) \<le> fl_key (foldl fmax (fmax x a) xs)" by simp
  with k have "fl_key x \<le> fl_key (foldl fmax (fmax x a) xs)"
    "fl_key a \<le> fl_key (foldl fmax (fmax x a) xs)" by auto
  moreover have "foldl fmax (fmax x a) xs \<in> set (x # a # xs)" using ih(1) m by (auto split: if_splits)
  ultimately show ?case using ih(2) by simp
qed

lemma np_sort_first:
  assumes "r \<noteq> []" "NaN \<notin> set r"
  shows "np_sort r ! 0 = amin_row r"
proof -
  obtain x xs where r: "r = x # xs" using assms(1) by (cases r) auto
  let ?s = "np_sort r"
  have len: "length ?s = length r" by (simp add: np_sort_def)
  have srt: "sorted (map fl_key ?s)" by (simp add: np_sort_def)
  have st: "set ?s = set r" by (simp add: np_sort_def)
  have h: "?s ! 0 \<in> set r" using len assms(1) st by (metis length_greater_0_conv nth_mem)
  have le: "fl_key (?s ! 0) \<le> fl_key y" if "y \<in> set r" for y
  proof -
    from that st obtain i where i: "i < length ?s" "?s ! i = y" by (metis in_set_conv_nth)
    then have "map fl_key ?s ! 0 \<le> map fl_key ?s ! i"
      using srt by (intro sorted_nth_mono) simp_all
    then show ?thesis using i len assms(1) by simp
  qed
  from foldl_fmin_least [of x xs] assms(2) r
  have am: "amin_row r \<in> set r" "\<forall>y\<in>set r. fl_key (amin_row r) \<le> fl_key y" by auto
  from le [OF am(1)] am(2) h have "fl_key (?s ! 0) = fl_key (amin_row r)" by (meson order.antisym)
  then show ?thesis by (rule fl_key_inj)
qed

lemma np_sort_last:
  assumes "r \<noteq> []" "NaN \<notin> set r"
  shows "np_sort r ! (length r - 1) = amax_row r"
proof -
  obtain x xs where r: "r = x # xs" using assms(1) by (cases r) auto
  let ?s = "np_sort r"
  let ?l = "length r - 1"
  have len: "length ?s = length r" by (simp add: np_sort_def)
  have srt: "sorted (map fl_key ?s)" by (simp add: np_sort_def)
  have st: "set ?s = set r" by (simp add: np_sort_def)
  have l: "?l < length ?s" using len assms(1) by simp
  then have h: "?s ! ?l \<in> set r" using st by (metis nth_mem)
  have le: "fl_key y \<le> fl_key (?s ! ?l)" if "y \<in> set r" for y
  proof -
    from that st obtain i where i: "i < length ?s" "?s ! i = y" by (metis in_set_conv_nth)
    then have "map fl_key ?s ! i \<le> map fl_key ?s ! ?l"
      using srt l len by (intro sorted_nth_mono) simp_all
    then show ?thesis using i l by simp
  qed
  from foldl_fmax_greatest [of x xs] assms(2) r
  have am: "amax_row r \<in> set r" "\<forall>y\<in>set r. fl_key y \<le> fl_key (amax_row r)" by auto
  from le [OF am(1)] am(2) h have "fl_key (?s ! ?l) = fl_key (amax_row r)" by (meson order.antisym)
  then show ?thesis by (rule fl_key_inj)
qed

lemma around_of_nat: "around (real k) = int k"
  by (simp add: around_def)

lemma quantile_nearest_0: "r \<noteq> [] \<Longrightarrow> quantile_nearest r 0 = amin_row r"
proof (cases "NaN \<in> set r")
  case True
  assume "r \<noteq> []"
  then obtain x xs where "r = x # xs" by (cases r) auto
  with True show ?thesis using foldl_fmin_NaN [of x xs] by (auto simp: quantile_nearest_def)
next
  case False
  assume "r \<noteq> []"
  with False show ?thesis using np_sort_first [of r] around_of_nat [of 0]
    by (simp add: quantile_nearest_def)
qed

lemma quantile_nearest_1: "r \<noteq> [] \<Longrightarrow> quantile_nearest r 1 = amax_row r"
proof (cases "NaN \<in> set r")
  case True
  assume "r \<noteq> []"
  then obtain x xs where "r = x # xs" by (cases r) auto
  with True show ?thesis using foldl_fmax_NaN [of x xs] by (auto simp: quantile_nearest_def)
next
  case False
  assume "r \<noteq> []"
  with False show ?thesis using np_sort_last [of r] around_of_nat [of "length r - 1"]
    by (simp add: quantile_nearest_def)
qed

lemma map_nth_singleton:
  "map (column [map g rows]) [0..<length rows] = map (\<lambda>r. [g r]) rows"
  by (rule nth_equalityI) (simp_all add: column_def)

text \<open>
  C8: for every matrix \<open>f\<close> of shape \<open>(m, n)\<close> (with \<open>n \<ge> 1\<close>, as the data model has it; for
  \<open>n = 0\<close> \<open>worst_case\<close> raises), \<open>select_percentiles(f, [0.0])\<close> equals
  \<open>worst_case(f)\<close> and \<open>select_percentiles(f, [1.0])\<close> equals \<open>best_case(f)\<close>.
\<close>

theorem select_percentiles_extremes:
  assumes "wf_arr (Arr2 n rows)" "0 < n"
  shows "select_percentiles (Arr2 n rows) [0] = worst_case (Arr2 n rows)
       \<and> select_percentiles (Arr2 n rows) [1] = best_case (Arr2 n rows)"
proof -
  have ne: "r \<noteq> []" if "r \<in> set rows" for r
    using that assms by (auto simp: list_all_iff)
  have a: "map (\<lambda>r. quantile_nearest r 0) rows = map amin_row rows"
    by (rule map_cong) (simp_all add: quantile_nearest_0 ne)
  have b: "map (\<lambda>r. quantile_nearest r 1) rows = map amax_row rows"
    by (rule map_cong) (simp_all add: quantile_nearest_1 ne)
  show ?thesis
    using assms(2) map_nth_singleton [of amin_row rows] map_nth_singleton [of amax_row rows]
    by (simp add: select_percentiles_def ebind_def a b)
qed

theorem select_percentiles_extremes_witness:
  "wf_arr (Arr2 3 [[Fin (99/100), Fin 1, Fin (1/2)], [Fin (69/100), Fin (6/10), Fin (6/10)]])
   \<and> (0::nat) < 3
   \<and> select_percentiles
        (Arr2 3 [[Fin (99/100), Fin 1, Fin (1/2)], [Fin (69/100), Fin (6/10), Fin (6/10)]]) [0]
       = Inr (Arr2 1 [[Fin (1/2)], [Fin (6/10)]])
   \<and> select_percentiles
        (Arr2 3 [[Fin (99/100), Fin 1, Fin (1/2)], [Fin (69/100), Fin (6/10), Fin (6/10)]]) [1]
       = Inr (Arr2 1 [[Fin 1], [Fin (69/100)]])"
  using select_percentiles_extremes [of 3
      "[[Fin (99/100), Fin 1, Fin (1/2)], [Fin (69/100), Fin (6/10), Fin (6/10)]]"]
  by (simp add: fmin_def fmax_def)

section \<open>The comparison loops\<close>

lemma sq_zeros: "sq n (np_zeros n)"
  by (simp add: sq_def np_zeros_def)

lemma sq_set2:
  assumes "sq n M"
  shows "sq n (set2 M i j v)"
proof (cases "i < length M")
  case True
  then have "length (M ! i) = n" using assms by (simp add: sq_def)
  then show ?thesis
    using assms unfolding sq_def set2_def
    by (auto dest!: set_update_subset_insert [THEN subsetD])
next
  case False
  then have "M[i := (M ! i)[j := v]] = M" by (intro list_update_beyond) simp
  then show ?thesis using assms by (simp add: set2_def)
qed

lemma set2_nth:
  assumes "sq n M" "a < n" "b < n"
  shows "set2 M i j v ! a ! b = (if a = i \<and> b = j then v else M ! a ! b)"
proof (cases "a = i")
  case True
  then have "i < length M" "length (M ! i) = n" using assms by (simp_all add: sq_def)
  then show ?thesis using True assms(3) by (simp add: set2_def nth_list_update)
next
  case False
  then show ?thesis by (simp add: set2_def)
qed

lemma sq_fill_step: "sq n M \<Longrightarrow> sq n (fill_step g i j M)"
  by (simp add: fill_step_def sq_set2)

lemma if_or: "(if q then v else if p then v else w) = (if p \<or> q then v else w)"
  by simp

lemma fill_step_nth:
  assumes "sq n M" "a < n" "b < n"
  shows "fill_step g i j M ! a ! b =
     (if (a = i \<and> b = j) \<or> (a = j \<and> b = i) then g i j else M ! a ! b)"
proof -
  have s: "sq n (set2 M i j (g i j))" using assms(1) by (rule sq_set2)
  have e1: "fill_step g i j M ! a ! b =
          (if a = j \<and> b = i then g i j else set2 M i j (g i j) ! a ! b)"
    unfolding fill_step_def by (rule set2_nth [OF s assms(2,3)])
  have e2: "set2 M i j (g i j) ! a ! b = (if a = i \<and> b = j then g i j else M ! a ! b)"
    by (rule set2_nth [OF assms])
  show ?thesis by (subst e1, subst e2) (rule if_or)
qed

lemma sq_inner: "sq n M \<Longrightarrow> sq n (fold (fill_step g i) js M)"
  by (induction js arbitrary: M) (simp_all add: sq_fill_step)

lemma inner_nth:
  "sq n M \<Longrightarrow> a < n \<Longrightarrow> b < n \<Longrightarrow>
   fold (fill_step g i) js M ! a ! b =
     (if (a = i \<and> b \<in> set js) \<or> (b = i \<and> a \<in> set js)
      then g i (if a = i then b else a) else M ! a ! b)"
proof (induction js arbitrary: M)
  case Nil
  then show ?case by simp
next
  case (Cons j js)
  have s: "sq n (fill_step g i j M)" using Cons.prems(1) by (rule sq_fill_step)
  show ?case
    using Cons.IH [OF s Cons.prems(2,3)] fill_step_nth [OF Cons.prems, of g i j]
    by auto
qed

lemma sq_fill_all: "sq n M \<Longrightarrow> sq n (fill_all g n k M)"
  by (induction k) (simp_all add: fill_all_def sq_inner)

lemma fill_all_nth:
  "sq n M \<Longrightarrow> a < n \<Longrightarrow> b < n \<Longrightarrow> k \<le> n \<Longrightarrow>
   fill_all g n k M ! a ! b = (if min a b < k then g (min a b) (max a b) else M ! a ! b)"
proof (induction k)
  case 0
  then show ?case by (simp add: fill_all_def)
next
  case (Suc k)
  have s: "sq n (fill_all g n k M)" using Suc.prems(1) by (rule sq_fill_all)
  have e: "fill_all g n (Suc k) M = fold (fill_step g k) [k..<n] (fill_all g n k M)"
    by (simp add: fill_all_def)
  show ?case
    unfolding e inner_nth [OF s Suc.prems(2,3)]
    using Suc by (auto simp: min_def max_def)
qed

lemma pair_inner:
  "fold (similarity_step kt R i) js (D, T) =
   (fold (fill_step (\<lambda>i j. rel_delta (column R i) (column R j)) i) js D,
    fold (fill_step (\<lambda>i j. kt (column R i) (column R j)) i) js T)"
  by (induction js arbitrary: D T) (simp_all add: similarity_step_def fill_step_def Let_def)

lemma pair_outer:
  "fold (\<lambda>i. fold (similarity_step kt R i) [i..<n]) is (D, T) =
   (fold (\<lambda>i. fold (fill_step (\<lambda>i j. rel_delta (column R i) (column R j)) i) [i..<n]) is D,
    fold (\<lambda>i. fold (fill_step (\<lambda>i j. kt (column R i) (column R j)) i) [i..<n]) is T)"
  by (induction "is" arbitrary: D T) (simp_all add: pair_inner)

lemma scenarios_similarity_eq:
  "scenarios_similarity kt (Arr2 n rows) =
   Inr (Arr2 n (fill_all (\<lambda>i j. rel_delta (column rows i) (column rows j)) n n (np_zeros n)),
        Arr2 n (fill_all (\<lambda>i j. kt (column rows i) (column rows j)) n n (np_zeros n)))"
  by (simp add: pair_outer fill_all_def)

lemma fsum_NaN: "NaN \<in> set xs \<Longrightarrow> fsum xs = NaN"
proof (induction xs)
  case Nil
  then show ?case by simp
next
  case (Cons a xs)
  show ?case
  proof (cases "a = NaN")
    case True
    then show ?thesis by (simp add: fsum_def)
  next
    case False
    with Cons have "fsum xs = NaN" by simp
    then show ?thesis by (cases a) (simp_all add: fsum_def)
  qed
qed

lemma fsum_zeros: "fsum (replicate m (Fin 0)) = Fin 0"
  by (induction m) (simp_all add: fsum_def)

lemma self_term_cases: "self_term x = (if nonzero_fin x then Fin 0 else NaN)"
  by (cases x) (simp_all add: self_term_def fsub_def inf_of_sign_def)

lemma self_terms: "map2 fdiv (map fabs (map2 fsub c c)) (halve (map fabs (map2 fadd c c))) = map self_term c"
  by (induction c) (simp_all add: halve_def self_term_def)

lemma rel_delta_self:
  "rel_delta c c = (if c \<noteq> [] \<and> list_all nonzero_fin c then Fin 0 else NaN)"
proof -
  have rd: "rel_delta c c = fmul (average (map self_term c)) (Fin 100)"
    by (simp only: rel_delta_def Let_def self_terms)
  show ?thesis
  proof (cases "c \<noteq> [] \<and> list_all nonzero_fin c")
  case True
  then have "map self_term c = replicate (length c) (Fin 0)"
    by (intro nth_equalityI) (simp_all add: self_term_cases list_all_length)
  then show ?thesis using True
    by (simp add: rd average_def fsum_zeros)
next
  case False
  show ?thesis
  proof (cases "c = []")
    case True
    then show ?thesis unfolding rd by (simp add: average_def fsum_def inf_of_sign_def)
  next
    case ne: False
    with False obtain x where "x \<in> set c" "\<not> nonzero_fin x" by (auto simp: list_all_iff)
    then have "NaN \<in> set (map self_term c)" by (force simp: self_term_cases)
    then have "fsum (map self_term c) = NaN" by (rule fsum_NaN)
    then show ?thesis using False by (simp add: rd average_def)
  qed
qed
qed

text \<open>
  C3, as stated: \<open>delta[i,i] == 0\<close> for every \<open>i\<close>. A column that holds a zero makes the
  relative difference with itself \<open>0/0\<close>: for \<open>R = [[0, 1], [1, 2]]\<close> the entry
  \<open>delta[0,0]\<close> is NaN.
\<close>

theorem scenarios_similarity_diagonal_counterexample:
  "scenarios_similarity tau_all_concordant (Arr2 2 [[Fin 0, Fin 1], [Fin 1, Fin 2]])
   = Inr (Arr2 2 [[NaN, Fin (400/3)], [Fin (400/3), Fin 0]],
          Arr2 2 [[Fin 1, Fin 1], [Fin 1, Fin 1]])"
  by (simp add: upt_rec similarity_step_def set2_def np_zeros_def numeral_2_eq_2 rel_delta_def
      column_def halve_def average_def fsum_def fsub_def inf_of_sign_def tau_all_concordant_def
      Let_def)

text \<open>
  C3, amended: for every robustness matrix \<open>R\<close> of shape \<open>(m, k)\<close> and every rank
  correlation function, \<open>scenarios_similarity\<close> returns \<open>(k, k)\<close> matrices \<open>delta\<close> and
  \<open>tau\<close> with \<open>delta[i,j]\<close> and \<open>delta[j,i]\<close> holding the same value, likewise \<open>tau\<close>;
  and \<open>delta[i,i]\<close> is 0 when \<open>m \<ge> 1\<close> and every entry of column \<open>i\<close> is finite and
  non-zero, and NaN otherwise.
\<close>

theorem scenarios_similarity_symmetric:
  "\<exists>D T. scenarios_similarity kt (Arr2 n rows) = Inr (Arr2 n D, Arr2 n T)
     \<and> (\<forall>i<n. \<forall>j<n. D ! i ! j = D ! j ! i \<and> T ! i ! j = T ! j ! i)
     \<and> (\<forall>i<n. D ! i ! i =
           (if rows \<noteq> [] \<and> list_all nonzero_fin (column rows i) then Fin 0 else NaN))"
proof -
  have c: "column rows i = [] \<longleftrightarrow> rows = []" for i
    by (simp add: column_def)
  show ?thesis
    unfolding scenarios_similarity_eq
    by (auto simp: fill_all_nth [OF sq_zeros] min.commute max.commute rel_delta_self c)
qed

theorem scenarios_similarity_symmetric_witness:
  "scenarios_similarity tau_all_concordant (Arr2 2 [[Fin 1, Fin 2], [Fin 3, Fin 5]])
     = Inr (Arr2 2 [[Fin 0, Fin (175/3)], [Fin (175/3), Fin 0]],
            Arr2 2 [[Fin 1, Fin 1], [Fin 1, Fin 1]])
   \<and> (0::nat) < 2 \<and> (1::nat) < 2
   \<and> [[Fin 1, Fin 2], [Fin 3, Fin 5]] \<noteq> []
   \<and> list_all nonzero_fin (column [[Fin 1, Fin 2], [Fin 3, Fin 5]] 0)
   \<and> [[Fin 0, Fin (175/3)], [Fin (175/3), Fin 0]] ! 0 ! 1
       = [[Fin 0, Fin (175/3)], [Fin (175/3), Fin 0 :: fl]] ! 1 ! 0
   \<and> [[Fin 0, Fin (175/3)], [Fin (175/3), Fin 0 :: fl]] ! 0 ! 0 = Fin 0"
proof -
  have e: "scenarios_similarity tau_all_concordant (Arr2 2 [[Fin 1, Fin 2], [Fin 3, Fin 5]])
     = Inr (Arr2 2 [[Fin 0, Fin (175/3)], [Fin (175/3), Fin 0]],
            Arr2 2 [[Fin 1, Fin 1], [Fin 1, Fin 1]])"
    by (simp add: upt_rec similarity_step_def set2_def np_zeros_def numeral_2_eq_2
        rel_delta_def column_def halve_def average_def fsum_def fsub_def inf_of_sign_def
        tau_all_concordant_def Let_def)
  have h: "list_all nonzero_fin (column [[Fin 1, Fin 2], [Fin 3, Fin 5]] 0)"
    by (simp add: column_def)
  from scenarios_similarity_symmetric [of tau_all_concordant 2 "[[Fin 1, Fin 2], [Fin 3, Fin 5]]"]
  obtain D T where d:
    "scenarios_similarity tau_all_concordant (Arr2 2 [[Fin 1, Fin 2], [Fin 3, Fin 5]])
       = Inr (Arr2 2 D, Arr2 2 T)"
    "\<forall>i<2. \<forall>j<2. D ! i ! j = D ! j ! i \<and> T ! i ! j = T ! j ! i"
    "\<forall>i<2. D ! i ! i =
       (if [[Fin 1, Fin 2], [Fin 3, Fin 5]] \<noteq> []
           \<and> list_all nonzero_fin (column [[Fin 1, Fin 2], [Fin 3, Fin 5]] i)
        then Fin 0 else NaN)"
    by blast
  from d(1) e have D: "D = [[Fin 0, Fin (175/3)], [Fin (175/3), Fin 0]]" by simp
  from d(2) have s: "D ! 0 ! 1 = D ! 1 ! 0" by simp
  from d(3) h have z: "D ! 0 ! 0 = Fin 0" by simp
  from e h s z show ?thesis unfolding D by simp
qed

section \<open>The tabular evaluator\<close>

text \<open>
  C1: \<open>f_to_R\<close> is meant to sort the rows by \<open>(l_idx, s_idx)\<close> before reshaping, so that
  the result does not depend on the order of the rows. \<open>sort_f_df\<close> drops the sorted copy,
  so the rows are reshaped as they come: the two example tables hold the same rows (sorting
  the second gives the first), and \<open>maximin\<close> comes out as \<open>[1, 3]\<close> on one and \<open>[1, 2]\<close> on
  the other.
\<close>

theorem f_to_R_depends_on_row_order:
  "sort_values table_by_scenario = Inr table_by_alternative
   \<and> fst (f_to_R table_by_alternative maximin_dict [[]])
       = Inr [(''Maximin'', PArr (Arr1 [Fin 1, Fin 3]))]
   \<and> fst (f_to_R table_by_scenario maximin_dict [[]])
       = Inr [(''Maximin'', PArr (Arr1 [Fin 1, Fin 2]))]"
  by code_simp

subsection \<open>One pass of the loop\<close>

lemma set_item_length [simp]: "length (set_item h a key v) = length h"
  by (simp add: set_item_def)


lemma get_absent: "(''t1_kwargs'' \<notin> set (map fst d)) = (map_of d ''t1_kwargs'' = None)"
  by (simp add: map_of_eq_None_iff)












subsection \<open>The whole loop\<close>






















end
